theory Spec2Isabelle
  imports Complex_Main
begin

section \<open>The optimizer object and the quantum individual\<close>

text \<open>
  A shallow embedding of \<^verbatim>\<open>PyQEA/qea.py\<close> (class \<^verbatim>\<open>QuantumEvAlgorithm\<close>).

  Numbers are exact reals: rounding error, infinities and NaN of IEEE floating point
  are outside the model, except for the one division whose divisor the code itself can
  make zero (\<^verbatim>\<open>sigma_decider\<close>), which is modelled with its IEEE outcomes.
  Divisions by \<^verbatim>\<open>mu_scaler\<close> and \<^verbatim>\<open>sigma_scaler\<close> are real divisions; theorems that
  depend on them assume the scalers are not zero.

  Counts (\<^verbatim>\<open>n_dims\<close>, \<^verbatim>\<open>elitist_level\<close>, \<^verbatim>\<open>saving_interval\<close>, \<^verbatim>\<open>N_iterations\<close>,
  \<^verbatim>\<open>sample_size\<close>) are natural numbers.
  A one-dimensional array is a list, a batch of shape \<open>(n, D)\<close> a list of \<open>n\<close> rows;
  shapes are taken to agree where numpy would broadcast (the theorems state the lengths
  they need).
  The caller's cost function and constraint functions are vectorised over the rows of
  a batch; they are modelled by the function they compute on one row.

  The random number generator is an explicit input: \<open>rng c r k\<close> is the standard normal
  deviate that the \<open>c\<close>-th call of \<^verbatim>\<open>np.random.normal\<close> uses for row \<open>r\<close> and column \<open>k\<close>,
  and \<open>u r k\<close> the uniform deviate of \<^verbatim>\<open>np.random.rand(2, n_dims)\<close>.
\<close>

datatype error =
  AssertionError | ValueError | ZeroDivisionError | AttributeError | IndexError
  | UnboundLocalError

type_synonym row = "real list"
type_synonym batch = "real list list"

text \<open>The array \<^verbatim>\<open>Q\<close> of shape \<open>(2, n_dims)\<close>: row 0 is the mean, row 1 the deviation.\<close>

record individual =
  q_mean :: row
  q_sigma :: row

text \<open>
  \<^verbatim>\<open>self.best_of_best\<close> is a reference to an array. \<^verbatim>\<open>quantum_individual_init\<close> binds it to
  the basic slice \<^verbatim>\<open>Q[0:1, :]\<close>, which in numpy is a view sharing the memory of \<^verbatim>\<open>Q\<close>;
  \<^verbatim>\<open>training\<close> rebinds it to the freshly allocated array \<^verbatim>\<open>best_performer\<close>.
\<close>

datatype bob_ref = ViewOfQ | OwnArray row

record qea =
  cost_function :: "row \<Rightarrow> real"
  n_dims :: nat
  sigma_scaler :: real
  mu_scaler :: real
  elitist_level :: nat
  ros_flag :: bool
  saving_interval :: nat
  upper :: row
  lower :: row
  integral_id :: "bool list"
  restrictions :: "(row \<Rightarrow> real) list"
  best_of_best :: "bob_ref option"

text \<open>The constructor: the attribute \<^verbatim>\<open>best_of_best\<close> does not exist yet (\<open>None\<close>).\<close>

definition qea_init ::
  "(row \<Rightarrow> real) \<Rightarrow> nat \<Rightarrow> row \<Rightarrow> row \<Rightarrow> bool list \<Rightarrow> real \<Rightarrow> real \<Rightarrow> nat \<Rightarrow> bool \<Rightarrow> nat
     \<Rightarrow> (row \<Rightarrow> real) list \<Rightarrow> error + qea" where
  "qea_init f nd upper_bound lower_bound integral sig_scaler m_scaler elitist ros
      saving restr =
     (if \<not> (nd = length lower_bound \<and> nd = length upper_bound) then Inl AssertionError
      else Inr \<lparr>cost_function = f, n_dims = nd, sigma_scaler = sig_scaler,
                mu_scaler = m_scaler, elitist_level = elitist, ros_flag = ros,
                saving_interval = saving, upper = upper_bound, lower = lower_bound,
                integral_id = integral, restrictions = restr, best_of_best = None\<rparr>)"

text \<open>Reading through the reference: a view of \<^verbatim>\<open>Q[0:1, :]\<close> shows the current mean.\<close>

definition deref :: "individual \<Rightarrow> bob_ref \<Rightarrow> row" where
  "deref Q r = (case r of ViewOfQ \<Rightarrow> q_mean Q | OwnArray v \<Rightarrow> v)"

text \<open>
  \<^verbatim>\<open>quantum_individual_init\<close>: \<^verbatim>\<open>Q = lower + upper * rand(2, n_dims)\<close>, then row 1 is
  overwritten with the domain width, and \<^verbatim>\<open>best_of_best\<close> becomes the view of row 0.
\<close>

definition quantum_individual_init :: "qea \<Rightarrow> (nat \<Rightarrow> nat \<Rightarrow> real) \<Rightarrow> individual \<times> qea" where
  "quantum_individual_init q u =
     (\<lparr>q_mean = map (\<lambda>k. lower q ! k + upper q ! k * u 0 k) [0..<n_dims q],
       q_sigma = map (\<lambda>k. (upper q ! k - lower q ! k) * 1) [0..<n_dims q]\<rparr>,
      q\<lparr>best_of_best := Some ViewOfQ\<rparr>)"

section \<open>Sampling\<close>

text \<open>
  \<^verbatim>\<open>np.random.normal(loc, scale, size=(n, d))\<close> returns \<open>loc + scale * z\<close> for standard
  normal deviates \<open>z\<close> and raises \<^verbatim>\<open>ValueError\<close> when a scale is negative.
\<close>

definition np_random_normal ::
  "row \<Rightarrow> row \<Rightarrow> nat \<Rightarrow> nat \<Rightarrow> (nat \<Rightarrow> nat \<Rightarrow> real) \<Rightarrow> error + batch" where
  "np_random_normal loc scale n d z =
     (if list_ex (\<lambda>s. s < 0) scale then Inl ValueError
      else Inr (map (\<lambda>r. map (\<lambda>k. loc ! k + scale ! k * z r k) [0..<d]) [0..<n]))"

definition np_maximum :: "batch \<Rightarrow> row \<Rightarrow> batch" where
  "np_maximum xs lo = map (\<lambda>r. map2 max r lo) xs"

definition np_minimum :: "batch \<Rightarrow> row \<Rightarrow> batch" where
  "np_minimum xs hi = map (\<lambda>r. map2 min r hi) xs"

text \<open>\<^verbatim>\<open>np.round\<close> rounds to the nearest integer, and a half to the even neighbour.\<close>

definition np_round :: "real \<Rightarrow> real" where
  "np_round x =
     (let f = \<lfloor>x\<rfloor>; d = x - of_int f
      in of_int (if d < 1 / 2 then f else if 1 / 2 < d then f + 1
                 else if even f then f else f + 1))"

text \<open>
  \<^verbatim>\<open>np.place(samples, mask, np.round(samples[mask]))\<close> with \<^verbatim>\<open>mask\<close> the row
  \<^verbatim>\<open>integral_id\<close> tiled \<open>n\<close> times: every entry in a flagged column is rounded.
\<close>

definition place_round :: "batch \<Rightarrow> bool list \<Rightarrow> batch" where
  "place_round xs msk = map (\<lambda>r. map2 (\<lambda>x b. if b then np_round x else x) r msk) xs"

definition quantum_sampling ::
  "qea \<Rightarrow> individual \<Rightarrow> nat \<Rightarrow> (nat \<Rightarrow> nat \<Rightarrow> real) \<Rightarrow> error + batch" where
  "quantum_sampling q Q n_samples z =
     (if list_ex (\<lambda>b. b) (integral_id q) then
        (case np_random_normal (q_mean Q) (q_sigma Q) n_samples (n_dims q) z of
           Inl e \<Rightarrow> Inl e
         | Inr normal_samples \<Rightarrow>
             Inr (place_round (np_minimum (np_maximum normal_samples (lower q)) (upper q))
                    (integral_id q)))
      else
        (case np_random_normal (q_mean Q) (q_sigma Q) n_samples (n_dims q) z of
           Inl e \<Rightarrow> Inl e
         | Inr normal_samples \<Rightarrow>
             Inr (np_minimum (np_maximum normal_samples (lower q)) (upper q))))"

text \<open>Boolean-mask indexing \<^verbatim>\<open>samples[valid, :]\<close>.\<close>

definition mask_rows :: "batch \<Rightarrow> bool list \<Rightarrow> batch" where
  "mask_rows xs valid = map fst (filter snd (zip xs valid))"

text \<open>
  The first feasibility pass, \<^verbatim>\<open>valid = valid * h(samples) >= 0\<close> for each \<^verbatim>\<open>h\<close>: Python
  parses the right-hand side as \<^verbatim>\<open>(valid * h(samples)) >= 0\<close>, the Boolean \<^verbatim>\<open>valid\<close>
  counting as 0 or 1 in the product.
\<close>

definition valid_ge :: "(row \<Rightarrow> real) list \<Rightarrow> batch \<Rightarrow> nat \<Rightarrow> bool list" where
  "valid_ge hs samples n =
     fold (\<lambda>h valid. map2 (\<lambda>v x. 0 \<le> of_bool v * h x) valid samples) hs (replicate n True)"

text \<open>The pass inside the loop, \<^verbatim>\<open>valid_s = valid_s * h(new_samples) > 0\<close>.\<close>

definition valid_gt :: "(row \<Rightarrow> real) list \<Rightarrow> batch \<Rightarrow> nat \<Rightarrow> bool list" where
  "valid_gt hs new_samples n =
     fold (\<lambda>h valid. map2 (\<lambda>v x. 0 < of_bool v * h x) valid new_samples) hs
       (replicate n True)"

text \<open>
  The \<^verbatim>\<open>while\<close> loop of \<^verbatim>\<open>restricted_quantum_sampling\<close> has no bound. The model gives it
  fuel: \<open>None\<close> means that the loop was still running when the fuel ran out. The counter
  \<open>c\<close> numbers the calls of the random number generator and is returned advanced.
\<close>

fun rqs_while ::
  "nat \<Rightarrow> qea \<Rightarrow> individual \<Rightarrow> nat \<Rightarrow> (nat \<Rightarrow> nat \<Rightarrow> nat \<Rightarrow> real) \<Rightarrow> nat \<Rightarrow> batch
     \<Rightarrow> (error + batch \<times> nat) option" where
  "rqs_while 0 q Q n_samples rng c samples =
     (if length samples < n_samples then None else Some (Inr (samples, c)))"
| "rqs_while (Suc fuel) q Q n_samples rng c samples =
     (if length samples < n_samples then
        (case quantum_sampling q Q (n_samples - length samples) (rng c) of
           Inl e \<Rightarrow> Some (Inl e)
         | Inr new_samples \<Rightarrow>
             rqs_while fuel q Q n_samples rng (c + 1)
               (samples @ mask_rows new_samples
                  (valid_gt (restrictions q) new_samples (n_samples - length samples))))
      else Some (Inr (samples, c)))"

definition restricted_quantum_sampling ::
  "qea \<Rightarrow> individual \<Rightarrow> nat \<Rightarrow> nat \<Rightarrow> (nat \<Rightarrow> nat \<Rightarrow> nat \<Rightarrow> real) \<Rightarrow> nat
     \<Rightarrow> (error + batch \<times> nat) option" where
  "restricted_quantum_sampling q Q n_samples fuel rng c =
     (case quantum_sampling q Q n_samples (rng c) of
        Inl e \<Rightarrow> Some (Inl e)
      | Inr samples \<Rightarrow>
          rqs_while fuel q Q n_samples rng (c + 1)
            (mask_rows samples (valid_ge (restrictions q) samples n_samples)))"

section \<open>Elite selection and the update rule\<close>

text \<open>
  \<^verbatim>\<open>np.argsort\<close> is modelled by the stable sort of the indices by cost; numpy's default
  sort leaves the order of equal costs open. \<^verbatim>\<open>np.mean(..., axis=0)\<close> of no rows is NaN
  in numpy; the model's value for \<^verbatim>\<open>elitist_level = 0\<close> is not meaningful.
\<close>

definition elitist_sample_evaluation :: "qea \<Rightarrow> batch \<Rightarrow> row" where
  "elitist_sample_evaluation q samples =
     (let cost = map (cost_function q) samples;
          sort_order = sort_key (\<lambda>i. cost ! i) [0..<length samples];
          chosen = map (\<lambda>i. samples ! i) (take (elitist_level q) sort_order)
      in map (\<lambda>k. (\<Sum>r\<leftarrow>chosen. r ! k) / real (length chosen)) [0..<n_dims q])"

text \<open>
  IEEE division as numpy performs it for \<^verbatim>\<open>np.abs(mu_delta) / sigma\<close>: a zero divisor
  gives an infinity or NaN, and every comparison with NaN is false.
\<close>

datatype np_float = Finite real | PosInf | NegInf | NaN

definition np_divide :: "real \<Rightarrow> real \<Rightarrow> np_float" where
  "np_divide x y =
     (if y \<noteq> 0 then Finite (x / y) else if 0 < x then PosInf else if x < 0 then NegInf
      else NaN)"

fun np_less :: "np_float \<Rightarrow> real \<Rightarrow> bool" where
  "np_less (Finite x) c = (x < c)"
| "np_less PosInf c = False"
| "np_less NegInf c = True"
| "np_less NaN c = False"

fun np_greater :: "np_float \<Rightarrow> real \<Rightarrow> bool" where
  "np_greater (Finite x) c = (c < x)"
| "np_greater PosInf c = True"
| "np_greater NegInf c = False"
| "np_greater NaN c = False"

definition quantum_update :: "qea \<Rightarrow> individual \<Rightarrow> row \<Rightarrow> error + individual" where
  "quantum_update q Q best_performing_sample =
     (case best_of_best q of
        None \<Rightarrow> Inl AttributeError
      | Some bob \<Rightarrow>
          (let mu = q_mean Q;
               sigma = q_sigma Q;
               scaling = mu_scaler q;
               mu_delta = map2 (-) best_performing_sample mu;
               mu_delta_2 = map2 (-) (deref Q bob) mu;
               updated_mu = map2 (+) mu (map (\<lambda>d. d / scaling) (map2 (+) mu_delta mu_delta_2));
               sigma_decider = map2 (\<lambda>d s. np_divide \<bar>d\<bar> s) mu_delta sigma;
               updated_sigma =
                 map2 (\<lambda>dec s. of_bool (np_less dec 1) * s / sigma_scaler q
                               + of_bool (np_greater dec 1) * s * sigma_scaler q)
                   sigma_decider sigma;
               updated_sigma' =
                 (if cost_function q updated_mu > 10 \<and> ros_flag q then
                    map2 (\<lambda>dec us. if us < 0.001 \<and> np_less dec 1 then us * sigma_scaler q
                                    else us)
                      sigma_decider updated_sigma
                  else updated_sigma)
           in Inr \<lparr>q_mean = updated_mu, q_sigma = updated_sigma'\<rparr>))"

section \<open>The training loop\<close>

record results =
  res_time :: real
  res_cost :: real
  res_min :: row

text \<open>
  The variables of \<^verbatim>\<open>training\<close> that the loop changes, the optimizer object among them
  (the loop assigns \<^verbatim>\<open>self.elitist_level\<close> and \<^verbatim>\<open>self.best_of_best\<close>). \<open>ls_calls\<close> counts
  the calls of the random number generator. \<open>ls_trace\<close> is an observation added by the
  model: every executed iteration body appends its index together with the
  \<^verbatim>\<open>elitist_level\<close> under which it computed its elite target.
\<close>

record loop_state =
  ls_self :: qea
  ls_Q :: individual
  ls_best_performer :: "row option"
  ls_j :: nat
  ls_Q_history :: "individual list"
  ls_best_performer_marker :: "real list"
  ls_function_evaluations :: "real list"
  ls_calls :: nat
  ls_trace :: "(nat \<times> nat) list"

text \<open>\<^verbatim>\<open>if self.restrictions: ... else: ...\<close> at the head of the loop body.\<close>

definition draw_samples ::
  "nat \<Rightarrow> nat \<Rightarrow> (nat \<Rightarrow> nat \<Rightarrow> nat \<Rightarrow> real) \<Rightarrow> loop_state \<Rightarrow> (error + batch \<times> nat) option" where
  "draw_samples sample_size fuel rng st =
     (if restrictions (ls_self st) \<noteq> [] then
        restricted_quantum_sampling (ls_self st) (ls_Q st) sample_size fuel rng (ls_calls st)
      else
        (case quantum_sampling (ls_self st) (ls_Q st) sample_size (rng (ls_calls st)) of
           Inl e \<Rightarrow> Some (Inl e)
         | Inr samples \<Rightarrow> Some (Inr (samples, ls_calls st + 1))))"

text \<open>
  The snapshot taken when \<^verbatim>\<open>np.mod(i, self.saving_interval) == 0\<close>; an index beyond the
  preallocated arrays would raise \<^verbatim>\<open>IndexError\<close>.
\<close>

definition save_snapshot :: "nat \<Rightarrow> nat \<Rightarrow> row \<Rightarrow> loop_state \<Rightarrow> error + loop_state" where
  "save_snapshot sample_size i best_perf st =
     (if i mod saving_interval (ls_self st) = 0 then
        (if ls_j st < length (ls_Q_history st) then
           Inr (st\<lparr>ls_Q_history := (ls_Q_history st)[ls_j st := ls_Q st],
                   ls_best_performer_marker :=
                     (ls_best_performer_marker st)
                       [ls_j st := cost_function (ls_self st) best_perf],
                   ls_function_evaluations :=
                     (ls_function_evaluations st)[ls_j st := real (i * sample_size)],
                   ls_j := ls_j st + 1\<rparr>)
         else Inl IndexError)
      else Inr st)"

text \<open>
  \<^verbatim>\<open>progress(count, total)\<close> only writes to the terminal, but it divides by
  \<^verbatim>\<open>float(total)\<close>, which raises \<^verbatim>\<open>ZeroDivisionError\<close> when \<^verbatim>\<open>total\<close> is 0.
\<close>

definition progress :: "nat \<Rightarrow> nat \<Rightarrow> error + unit" where
  "progress count tot = (if tot = 0 then Inl ZeroDivisionError else Inr ())"

text \<open>
  One pass through the body of \<^verbatim>\<open>for i in range(N_iterations+1)\<close>. The Boolean of the
  result says whether the body ended in \<^verbatim>\<open>break\<close>.
\<close>

definition iteration ::
  "nat \<Rightarrow> nat \<Rightarrow> nat \<Rightarrow> (nat \<Rightarrow> nat \<Rightarrow> nat \<Rightarrow> real) \<Rightarrow> nat \<Rightarrow> loop_state
     \<Rightarrow> (error + loop_state \<times> bool) option" where
  "iteration N_iterations sample_size fuel rng i st =
     (case draw_samples sample_size fuel rng st of
        None \<Rightarrow> None
      | Some (Inl e) \<Rightarrow> Some (Inl e)
      | Some (Inr (samples, c)) \<Rightarrow>
          (let self1 = (if int i > int N_iterations - 1
                        then (ls_self st)\<lparr>elitist_level := 1\<rparr> else ls_self st);
               best_perf = elitist_sample_evaluation self1 samples
           in case best_of_best self1 of
                None \<Rightarrow> Some (Inl AttributeError)
              | Some bob \<Rightarrow>
                  (let self2 =
                         (if cost_function self1 best_perf
                               < cost_function self1 (deref (ls_Q st) bob)
                          then self1\<lparr>best_of_best := Some (OwnArray best_perf)\<rparr>
                          else self1)
                   in case quantum_update self2 (ls_Q st) best_perf of
                        Inl e \<Rightarrow> Some (Inl e)
                      | Inr Q' \<Rightarrow>
                          (case save_snapshot sample_size i best_perf
                                  (st\<lparr>ls_self := self2, ls_Q := Q',
                                      ls_best_performer := Some best_perf, ls_calls := c,
                                      ls_trace := ls_trace st @ [(i, elitist_level self1)]\<rparr>) of
                             Inl e \<Rightarrow> Some (Inl e)
                           | Inr st' \<Rightarrow>
                               (case (if i mod 50 = 0 then progress i N_iterations
                                      else Inr ()) of
                                  Inl e \<Rightarrow> Some (Inl e)
                                | Inr _ \<Rightarrow>
                                    Some (Inr (st', cost_function self2 best_perf \<le> 0.0001
                                                    \<and> False)))))))"

text \<open>The loop: \<open>n\<close> further passes, the next one with index \<open>i\<close>.\<close>

fun training_loop ::
  "nat \<Rightarrow> nat \<Rightarrow> nat \<Rightarrow> (nat \<Rightarrow> nat \<Rightarrow> nat \<Rightarrow> real) \<Rightarrow> nat \<Rightarrow> nat \<Rightarrow> loop_state
     \<Rightarrow> (error + loop_state) option" where
  "training_loop N_iterations sample_size fuel rng i 0 st = Some (Inr st)"
| "training_loop N_iterations sample_size fuel rng i (Suc n) st =
     (case iteration N_iterations sample_size fuel rng i st of
        None \<Rightarrow> None
      | Some (Inl e) \<Rightarrow> Some (Inl e)
      | Some (Inr (st', brk)) \<Rightarrow>
          if brk then Some (Inr st')
          else training_loop N_iterations sample_size fuel rng (Suc i) n st')"

text \<open>The state in which the loop starts, after the arrays of the history are allocated.\<close>

definition initial_state :: "qea \<Rightarrow> individual \<Rightarrow> nat \<Rightarrow> loop_state" where
  "initial_state q Q N_iterations =
     (let n_snapshots = 1 + N_iterations div saving_interval q
      in \<lparr>ls_self = q, ls_Q = Q, ls_best_performer = None, ls_j = 0,
          ls_Q_history =
            replicate n_snapshots \<lparr>q_mean = replicate (n_dims q) 0, q_sigma = replicate (n_dims q) 0\<rparr>,
          ls_best_performer_marker = replicate n_snapshots 0,
          ls_function_evaluations = replicate n_snapshots 0,
          ls_calls = 0, ls_trace = []\<rparr>)"

text \<open>
  \<^verbatim>\<open>training\<close>, without the optional \<^verbatim>\<open>np.savez\<close> of the history. \<open>t_begin\<close> and \<open>t_end\<close>
  are the two readings of \<^verbatim>\<open>time.time()\<close>. The result is \<open>None\<close> when the rejection
  loop of a constrained sampling ran out of fuel, an error when the run raised, and
  otherwise the dictionary \<^verbatim>\<open>results\<close> with the final state of the run.
\<close>

definition training ::
  "qea \<Rightarrow> nat \<Rightarrow> nat \<Rightarrow> nat \<Rightarrow> (nat \<Rightarrow> nat \<Rightarrow> nat \<Rightarrow> real) \<Rightarrow> (nat \<Rightarrow> nat \<Rightarrow> real) \<Rightarrow> real \<Rightarrow> real
     \<Rightarrow> (error + results \<times> loop_state) option" where
  "training q N_iterations sample_size fuel rng u t_begin t_end =
     (if \<not> (sample_size > elitist_level q) then Some (Inl AssertionError)
      else
        (case quantum_individual_init q u of
           (Q, q') \<Rightarrow>
             if saving_interval q' = 0 then Some (Inl ZeroDivisionError)
             else
               (case training_loop N_iterations sample_size fuel rng 0 (N_iterations + 1)
                       (initial_state q' Q N_iterations) of
                  None \<Rightarrow> None
                | Some (Inl e) \<Rightarrow> Some (Inl e)
                | Some (Inr st) \<Rightarrow>
                    (case ls_best_performer st of
                       None \<Rightarrow> Some (Inl UnboundLocalError)
                     | Some best_perf \<Rightarrow>
                         Some (Inr (\<lparr>res_time = t_end - t_begin,
                                     res_cost = cost_function (ls_self st) best_perf,
                                     res_min = best_perf\<rparr>, st))))))"

section \<open>Observations, the loop invariant and concrete inputs\<close>

text \<open>The state in which \<^verbatim>\<open>training\<close> enters its loop.\<close>

definition start_state :: "qea \<Rightarrow> (nat \<Rightarrow> nat \<Rightarrow> real) \<Rightarrow> nat \<Rightarrow> loop_state" where
  "start_state q u N_iterations =
     (case quantum_individual_init q u of (Q, q') \<Rightarrow> initial_state q' Q N_iterations)"

text \<open>What \<^verbatim>\<open>self.best_of_best\<close> shows when it is read, and its cost.\<close>

definition current_best_of_best :: "loop_state \<Rightarrow> row option" where
  "current_best_of_best st = map_option (deref (ls_Q st)) (best_of_best (ls_self st))"

definition best_of_best_cost :: "loop_state \<Rightarrow> real option" where
  "best_of_best_cost st = map_option (cost_function (ls_self st)) (current_best_of_best st)"

text \<open>Projections of the outcome of a loop and of a run that returned.\<close>

definition observe :: "(loop_state \<Rightarrow> 'a) \<Rightarrow> (error + loop_state) option \<Rightarrow> 'a option" where
  "observe f r = (case r of Some (Inr st) \<Rightarrow> Some (f st) | _ \<Rightarrow> None)"

definition returned :: "(error + results \<times> loop_state) option \<Rightarrow> results option" where
  "returned r = (case r of Some (Inr (res, st)) \<Rightarrow> Some res | _ \<Rightarrow> None)"

definition final_state :: "(error + results \<times> loop_state) option \<Rightarrow> loop_state option" where
  "final_state r = (case r of Some (Inr (res, st)) \<Rightarrow> Some st | _ \<Rightarrow> None)"

text \<open>
  What an unconstrained run keeps true from one pass to the next, \<open>i\<close> being the index
  of the next pass: it is enough for the pass to raise nothing.
\<close>

definition loop_inv :: "nat \<Rightarrow> nat \<Rightarrow> loop_state \<Rightarrow> bool" where
  "loop_inv N i st \<longleftrightarrow>
     restrictions (ls_self st) = [] \<and> best_of_best (ls_self st) \<noteq> None
     \<and> list_all (\<lambda>s. 0 \<le> s) (q_sigma (ls_Q st))
     \<and> 0 \<le> sigma_scaler (ls_self st) \<and> 0 < saving_interval (ls_self st)
     \<and> length (ls_Q_history st) = 1 + N div saving_interval (ls_self st)
     \<and> ls_j st * saving_interval (ls_self st) < i + saving_interval (ls_self st)"

text \<open>
  Concrete optimizers for the examples: all minimise \<open>(x - 3)\<^sup>2\<close> in one dimension,
  except \<open>grid_qea\<close>, which has an integral and a continuous dimension.
\<close>

definition unit_qea :: qea where
  "unit_qea = \<lparr>cost_function = (\<lambda>x. (x ! 0 - 3)\<^sup>2), n_dims = 1, sigma_scaler = 2,
     mu_scaler = 100, elitist_level = 1, ros_flag = False, saving_interval = 1,
     upper = [10], lower = [-10], integral_id = [False], restrictions = [],
     best_of_best = Some ViewOfQ\<rparr>"

definition ros_qea :: qea where
  "ros_qea = unit_qea\<lparr>ros_flag := True\<rparr>"

definition integral_qea :: qea where
  "integral_qea = unit_qea\<lparr>upper := [27 / 10], lower := [0], integral_id := [True]\<rparr>"

definition grid_qea :: qea where
  "grid_qea = \<lparr>cost_function = (\<lambda>x. (x ! 0 - 3)\<^sup>2 + (x ! 1)\<^sup>2), n_dims = 2,
     sigma_scaler = 2, mu_scaler = 100, elitist_level = 1, ros_flag = False,
     saving_interval = 1, upper = [5, 5 / 2], lower = [0, 0],
     integral_id = [True, False], restrictions = [], best_of_best = Some ViewOfQ\<rparr>"

definition two_restrictions_qea :: qea where
  "two_restrictions_qea = unit_qea\<lparr>restrictions := [\<lambda>x. x ! 0 - 5, \<lambda>x. x ! 0 + 10]\<rparr>"

definition negative_domain_qea :: qea where
  "negative_domain_qea = unit_qea\<lparr>upper := [- 5], lower := [- 10]\<rparr>"

definition positive_domain_qea :: qea where
  "positive_domain_qea = unit_qea\<lparr>upper := [10], lower := [5]\<rparr>"

definition demo_qea :: qea where
  "demo_qea = \<lparr>cost_function = (\<lambda>x. (x ! 0 - 3)\<^sup>2), n_dims = 1, sigma_scaler = 2,
     mu_scaler = 2, elitist_level = 2, ros_flag = False, saving_interval = 1,
     upper = [10], lower = [0], integral_id = [False], restrictions = [],
     best_of_best = None\<rparr>"

definition demo_rng :: "nat \<Rightarrow> nat \<Rightarrow> nat \<Rightarrow> real" where
  "demo_rng c r k = real r"

definition demo_u :: "nat \<Rightarrow> nat \<Rightarrow> real" where
  "demo_u r k = 3 / 10"

definition late_rng :: "nat \<Rightarrow> nat \<Rightarrow> nat \<Rightarrow> real" where
  "late_rng c r k = (if c = 0 then 3 / 10 * real r else 1 + real r)"

definition zero_u :: "nat \<Rightarrow> nat \<Rightarrow> real" where
  "zero_u r k = 0"

section \<open>Properties of the update rule\<close>

lemma quantum_update_sigma_nth:
  assumes "quantum_update q Q bp = Inr Q'"
    and "k < length (q_sigma Q)" and "length (q_mean Q) = length (q_sigma Q)"
    and "length bp = length (q_sigma Q)"
  shows "q_sigma Q' ! k =
     (let dec = np_divide \<bar>bp ! k - q_mean Q ! k\<bar> (q_sigma Q ! k);
          us = of_bool (np_less dec 1) * (q_sigma Q ! k) / sigma_scaler q
               + of_bool (np_greater dec 1) * (q_sigma Q ! k) * sigma_scaler q
      in if cost_function q (q_mean Q') > 10 \<and> ros_flag q \<and> us < 0.001 \<and> np_less dec 1
         then us * sigma_scaler q else us)"
  using assms
  by (auto simp: quantum_update_def Let_def split: option.splits)

text \<open>Away from a ratio of exactly 1, a positive sigma stays positive.\<close>

lemma quantum_update_sigma_positive:
  assumes "quantum_update q Q bp = Inr Q'"
    and "k < length (q_sigma Q)" and "length (q_mean Q) = length (q_sigma Q)"
    and "length bp = length (q_sigma Q)"
    and "0 < q_sigma Q ! k" and "1 < sigma_scaler q"
    and "\<bar>bp ! k - q_mean Q ! k\<bar> / q_sigma Q ! k \<noteq> 1"
  shows "0 < q_sigma Q' ! k"
proof -
  have "\<bar>bp ! k - q_mean Q ! k\<bar> / q_sigma Q ! k < 1
      \<or> 1 < \<bar>bp ! k - q_mean Q ! k\<bar> / q_sigma Q ! k"
    using assms(7) by linarith
  then show ?thesis
    using quantum_update_sigma_nth[OF assms(1-4)] assms(5,6)
    by (auto simp: np_divide_def Let_def split: if_splits)
qed

text \<open>
  Claim C2: with strictly positive sigma and \<open>sigma_scaler > 1\<close>, every sigma component
  is still strictly positive after one call of \<^verbatim>\<open>quantum_update\<close>. The code breaks it:
  \<^verbatim>\<open>(sigma_decider < 1) * sigma / sigma_scaler + (sigma_decider > 1) * sigma * sigma_scaler\<close>
  has no summand for \<^verbatim>\<open>sigma_decider == 1\<close>. With mean 0, sigma 1 and elite target 1 the
  ratio is exactly 1 and the new sigma is 0.
\<close>

theorem quantum_update_zeroes_sigma_at_ratio_one:
  "quantum_update unit_qea \<lparr>q_mean = [0], q_sigma = [1]\<rparr> [1]
     = Inr \<lparr>q_mean = [1 / 100], q_sigma = [0]\<rparr>
   \<and> \<bar>1 - 0\<bar> / 1 = (1 :: real) \<and> 1 < sigma_scaler unit_qea"
  by (simp add: quantum_update_def unit_qea_def deref_def np_divide_def)

text \<open>
  Claim C4, as stated (ratio below 1: sigma is divided by \<open>sigma_scaler\<close>), fails where
  the anti-stagnation correction applies: \<^verbatim>\<open>ros_flag\<close> is set, the cost of the updated
  mean is above 10 and the shrunk sigma is below 0.001, so it is multiplied back.
\<close>

theorem quantum_update_ros_counterexample:
  "quantum_update ros_qea \<lparr>q_mean = [100], q_sigma = [1 / 1000]\<rparr> [100]
     = Inr \<lparr>q_mean = [100], q_sigma = [1 / 1000]\<rparr>
   \<and> \<bar>100 - 100\<bar> / (1 / 1000) < (1 :: real)
   \<and> (1 / 1000) / sigma_scaler ros_qea \<noteq> 1 / 1000"
  by (simp add: quantum_update_def unit_qea_def ros_qea_def deref_def np_divide_def)

text \<open>
  Claim C4, amended: in \<^verbatim>\<open>quantum_update\<close>, for every dimension \<open>k\<close> with non-zero sigma
  (and non-zero scalers): if \<open>|elite - mean| / sigma < 1\<close>, the new sigma is
  \<open>sigma / sigma_scaler\<close>, unless the anti-stagnation correction applies (\<^verbatim>\<open>ros_flag\<close> set,
  cost of the updated mean above 10, \<open>sigma / sigma_scaler < 0.001\<close>), in which case it is
  \<open>sigma / sigma_scaler * sigma_scaler\<close>; if the ratio is above 1, the new sigma is
  \<open>sigma * sigma_scaler\<close>. Nothing is said about a ratio of exactly 1.
\<close>

theorem quantum_update_sigma_rule:
  assumes "quantum_update q Q bp = Inr Q'"
    and "length (q_mean Q) = n_dims q" and "length (q_sigma Q) = n_dims q"
    and "length bp = n_dims q" and "k < n_dims q"
    and "q_sigma Q ! k \<noteq> 0" and "sigma_scaler q \<noteq> 0" and "mu_scaler q \<noteq> 0"
  shows "(\<bar>bp ! k - q_mean Q ! k\<bar> / q_sigma Q ! k < 1 \<longrightarrow>
            q_sigma Q' ! k =
              (if cost_function q (q_mean Q') > 10 \<and> ros_flag q
                    \<and> q_sigma Q ! k / sigma_scaler q < 0.001
               then q_sigma Q ! k / sigma_scaler q * sigma_scaler q
               else q_sigma Q ! k / sigma_scaler q))
       \<and> (\<bar>bp ! k - q_mean Q ! k\<bar> / q_sigma Q ! k > 1 \<longrightarrow>
            q_sigma Q' ! k = q_sigma Q ! k * sigma_scaler q)"
  using quantum_update_sigma_nth[OF assms(1), of k] assms(2-6)
  by (simp add: np_divide_def Let_def)

theorem quantum_update_sigma_rule_witness:
  "quantum_update unit_qea \<lparr>q_mean = [0], q_sigma = [4]\<rparr> [1]
     = Inr \<lparr>q_mean = [1 / 100], q_sigma = [2]\<rparr>
   \<and> \<bar>1 - 0\<bar> / 4 < (1 :: real)
   \<and> q_sigma \<lparr>q_mean = [1 / 100], q_sigma = [2]\<rparr> ! 0 = 4 / sigma_scaler unit_qea"
proof -
  have run: "quantum_update unit_qea \<lparr>q_mean = [0], q_sigma = [4]\<rparr> [1]
     = Inr \<lparr>q_mean = [1 / 100], q_sigma = [2]\<rparr>"
    by (simp add: quantum_update_def unit_qea_def deref_def np_divide_def)
  have "q_sigma \<lparr>q_mean = [1 / 100], q_sigma = [2]\<rparr> ! 0 = 4 / sigma_scaler unit_qea"
    using quantum_update_sigma_rule[OF run, of 0] by (simp add: unit_qea_def)
  with run show ?thesis by simp
qed

section \<open>Properties of sampling\<close>

lemma np_round_cases:
  "np_round x = of_int \<lfloor>x\<rfloor> \<or> (np_round x = of_int (\<lfloor>x\<rfloor> + 1) \<and> of_int \<lfloor>x\<rfloor> < x)"
  unfolding np_round_def Let_def by auto

lemma np_round_ge_int:
  assumes "of_int m \<le> x"
  shows "of_int m \<le> np_round x"
proof -
  have "m \<le> \<lfloor>x\<rfloor>" using assms by (simp add: le_floor_iff)
  then have "(of_int m :: real) \<le> of_int \<lfloor>x\<rfloor>" "(of_int m :: real) \<le> of_int (\<lfloor>x\<rfloor> + 1)"
    by simp_all
  then show ?thesis using np_round_cases[of x] by auto
qed

lemma np_round_le_int:
  assumes "x \<le> of_int m"
  shows "np_round x \<le> of_int m"
proof -
  have le: "\<lfloor>x\<rfloor> \<le> m" using assms by (simp add: floor_le_iff)
  have "\<lfloor>x\<rfloor> + 1 \<le> m" if "of_int \<lfloor>x\<rfloor> < x"
  proof -
    from that assms have "(of_int \<lfloor>x\<rfloor> :: real) < of_int m" by linarith
    then show ?thesis by simp
  qed
  then have "of_int \<lfloor>x\<rfloor> < x \<Longrightarrow> (of_int (\<lfloor>x\<rfloor> + 1) :: real) \<le> of_int m"
    using of_int_le_iff by blast
  moreover have "(of_int \<lfloor>x\<rfloor> :: real) \<le> of_int m" using le by simp
  ultimately show ?thesis using np_round_cases[of x] by auto
qed

text \<open>With no negative sigma the generator raises nothing, and the batch is this one.\<close>

lemma quantum_sampling_Inr:
  assumes "\<forall>s\<in>set (q_sigma Q). 0 \<le> s"
  shows "quantum_sampling q Q n z =
     Inr (let clamped = np_minimum (np_maximum
                (map (\<lambda>r. map (\<lambda>k. q_mean Q ! k + q_sigma Q ! k * z r k) [0..<n_dims q]) [0..<n])
                (lower q)) (upper q)
          in if list_ex (\<lambda>b. b) (integral_id q) then place_round clamped (integral_id q)
             else clamped)"
proof -
  have "\<not> list_ex (\<lambda>s. s < 0) (q_sigma Q)"
    using assms by (auto simp: list_ex_iff)
  then show ?thesis
    by (simp add: quantum_sampling_def np_random_normal_def Let_def)
qed

text \<open>
  Claim C5, as stated (every sampled value lies within the bounds of its dimension, the
  rounded ones included), fails for an integral dimension whose upper bound is not an
  integer: with bounds \<open>[0, 2.7]\<close> a draw of 10 is clamped to 2.7 and then rounded to 3.
\<close>

theorem quantum_sampling_rounds_past_upper:
  "quantum_sampling integral_qea \<lparr>q_mean = [10], q_sigma = [1]\<rparr> 1 (\<lambda>r k. 0) = Inr [[3]]
   \<and> upper integral_qea ! 0 < 3 \<and> lower integral_qea ! 0 \<le> upper integral_qea ! 0"
  by (simp add: quantum_sampling_def integral_qea_def unit_qea_def np_random_normal_def
      np_maximum_def np_minimum_def place_round_def np_round_def Let_def)

text \<open>
  Claim C5, amended: for every valid domain (bounds and mask of length \<open>D\<close>, lower at most
  upper), every individual of shape \<open>(2, D)\<close> with no negative sigma and every \<open>n\<close>,
  \<^verbatim>\<open>quantum_sampling\<close> returns a batch of shape \<open>(n, D)\<close>; every value in a dimension that
  is not flagged integral lies within \<open>[lower[k], upper[k]]\<close>; every value in a flagged
  dimension is the rounding of a value within \<open>[lower[k], upper[k]]\<close>, and lies within
  these bounds itself whenever both bounds are integers.
\<close>

theorem quantum_sampling_shape_and_bounds:
  assumes "length (lower q) = n_dims q" and "length (upper q) = n_dims q"
    and "length (integral_id q) = n_dims q"
    and "\<forall>k<n_dims q. lower q ! k \<le> upper q ! k"
    and "length (q_mean Q) = n_dims q" and "length (q_sigma Q) = n_dims q"
    and "\<forall>s\<in>set (q_sigma Q). 0 \<le> s"
  shows "\<exists>samples. quantum_sampling q Q n z = Inr samples \<and> length samples = n
     \<and> (\<forall>r<n. length (samples ! r) = n_dims q
          \<and> (\<forall>k<n_dims q.
                (\<not> integral_id q ! k \<longrightarrow>
                   lower q ! k \<le> samples ! r ! k \<and> samples ! r ! k \<le> upper q ! k)
              \<and> (integral_id q ! k \<longrightarrow>
                   (\<exists>c. lower q ! k \<le> c \<and> c \<le> upper q ! k \<and> samples ! r ! k = np_round c)
                 \<and> (lower q ! k \<in> \<int> \<and> upper q ! k \<in> \<int> \<longrightarrow>
                      lower q ! k \<le> samples ! r ! k \<and> samples ! r ! k \<le> upper q ! k))))"
proof -
  define v where
    "v r k = min (max (q_mean Q ! k + q_sigma Q ! k * z r k) (lower q ! k)) (upper q ! k)"
    for r k
  have vb: "lower q ! k \<le> v r k \<and> v r k \<le> upper q ! k" if "k < n_dims q" for r k
    using assms(4) that unfolding v_def by (auto simp: min_def max_def)
  have rb: "lower q ! k \<le> np_round (v r k) \<and> np_round (v r k) \<le> upper q ! k"
    if "k < n_dims q" "lower q ! k \<in> \<int>" "upper q ! k \<in> \<int>" for r k
  proof -
    from that obtain a b where ab: "lower q ! k = of_int a" "upper q ! k = of_int b"
      by (auto elim!: Ints_cases)
    show ?thesis
      using vb[OF that(1), of r] np_round_ge_int[of a "v r k"] np_round_le_int[of "v r k" b]
      by (simp add: ab)
  qed
  show ?thesis
  proof (cases "list_ex (\<lambda>b. b) (integral_id q)")
    case True
    have eq: "quantum_sampling q Q n z =
        Inr (map (\<lambda>r. map (\<lambda>k. if integral_id q ! k then np_round (v r k) else v r k)
                        [0..<n_dims q]) [0..<n])"
      unfolding quantum_sampling_Inr[OF assms(7)] Let_def using True assms(1-3)
      by (auto simp: np_minimum_def np_maximum_def place_round_def v_def list_eq_iff_nth_eq)
    show ?thesis unfolding eq using vb rb by auto
  next
    case False
    then have ni: "\<not> integral_id q ! k" if "k < n_dims q" for k
      using that assms(3) by (auto simp: list_ex_iff in_set_conv_nth)
    have eq: "quantum_sampling q Q n z =
        Inr (map (\<lambda>r. map (\<lambda>k. v r k) [0..<n_dims q]) [0..<n])"
      unfolding quantum_sampling_Inr[OF assms(7)] Let_def using False assms(1-3)
      by (auto simp: np_minimum_def np_maximum_def v_def list_eq_iff_nth_eq)
    show ?thesis unfolding eq using vb ni by auto
  qed
qed

theorem quantum_sampling_shape_and_bounds_witness:
  "quantum_sampling grid_qea \<lparr>q_mean = [7 / 2, 9], q_sigma = [1, 1]\<rparr> 1 (\<lambda>r k. 0)
     = Inr [[4, 5 / 2]]
   \<and> lower grid_qea ! 0 \<le> 4 \<and> 4 \<le> upper grid_qea ! 0
   \<and> lower grid_qea ! 1 \<le> 5 / 2 \<and> 5 / 2 \<le> upper grid_qea ! 1"
proof -
  let ?Q = "\<lparr>q_mean = [7 / 2, 9], q_sigma = [1, 1]\<rparr>"
  have run: "quantum_sampling grid_qea ?Q 1 (\<lambda>r k. 0) = Inr [[4, 5 / 2]]"
    by (simp add: quantum_sampling_def grid_qea_def np_random_normal_def np_maximum_def
        np_minimum_def place_round_def np_round_def Let_def eval_nat_numeral)
  have dom: "\<forall>k<n_dims grid_qea. lower grid_qea ! k \<le> upper grid_qea ! k"
    by (simp add: grid_qea_def less_Suc_eq eval_nat_numeral)
  have sig: "\<forall>s\<in>set (q_sigma ?Q). 0 \<le> s" by simp
  have ints: "lower grid_qea ! 0 \<in> \<int>" "upper grid_qea ! 0 \<in> \<int>"
    by (simp_all add: grid_qea_def)
  from quantum_sampling_shape_and_bounds[of grid_qea ?Q 1 "\<lambda>r k. 0", OF _ _ _ dom _ _ sig]
  obtain samples where s: "quantum_sampling grid_qea ?Q 1 (\<lambda>r k. 0) = Inr samples"
    and b: "\<forall>r<1. length (samples ! r) = n_dims grid_qea
          \<and> (\<forall>k<n_dims grid_qea.
                (\<not> integral_id grid_qea ! k \<longrightarrow>
                   lower grid_qea ! k \<le> samples ! r ! k \<and> samples ! r ! k \<le> upper grid_qea ! k)
              \<and> (integral_id grid_qea ! k \<longrightarrow>
                   (\<exists>c. lower grid_qea ! k \<le> c \<and> c \<le> upper grid_qea ! k \<and> samples ! r ! k = np_round c)
                 \<and> (lower grid_qea ! k \<in> \<int> \<and> upper grid_qea ! k \<in> \<int> \<longrightarrow>
                      lower grid_qea ! k \<le> samples ! r ! k \<and> samples ! r ! k \<le> upper grid_qea ! k)))"
    by (auto simp: grid_qea_def)
  from s run have eq: "samples = [[4, 5 / 2]]" by simp
  have k0: "(0::nat) < n_dims grid_qea" and k1: "(1::nat) < n_dims grid_qea"
    and i0: "integral_id grid_qea ! 0" and i1: "\<not> integral_id grid_qea ! 1"
    by (simp_all add: grid_qea_def)
  from b have b0: "\<forall>k<n_dims grid_qea.
                (\<not> integral_id grid_qea ! k \<longrightarrow>
                   lower grid_qea ! k \<le> samples ! 0 ! k \<and> samples ! 0 ! k \<le> upper grid_qea ! k)
              \<and> (integral_id grid_qea ! k \<longrightarrow>
                   (\<exists>c. lower grid_qea ! k \<le> c \<and> c \<le> upper grid_qea ! k \<and> samples ! 0 ! k = np_round c)
                 \<and> (lower grid_qea ! k \<in> \<int> \<and> upper grid_qea ! k \<in> \<int> \<longrightarrow>
                      lower grid_qea ! k \<le> samples ! 0 ! k \<and> samples ! 0 ! k \<le> upper grid_qea ! k))"
    by simp
  from b0 k0 i0 ints have "lower grid_qea ! 0 \<le> samples ! 0 ! 0 \<and> samples ! 0 ! 0 \<le> upper grid_qea ! 0"
    by blast
  moreover from b0 k1 i1 have "lower grid_qea ! 1 \<le> samples ! 0 ! 1 \<and> samples ! 0 ! 1 \<le> upper grid_qea ! 1"
    by blast
  ultimately show ?thesis using run unfolding eq by simp
qed

text \<open>
  What the two feasibility passes of \<^verbatim>\<open>restricted_quantum_sampling\<close> compute for a row.
  The pass inside the loop is the conjunction over all constraints (with \<open>> 0\<close>). The
  first pass is not: once a row has failed a constraint its flag is \<open>False\<close>, the product
  with the next constraint's value is 0, and \<open>0 >= 0\<close> makes the row valid again.
\<close>

lemma valid_gt_nth:
  assumes "r < n" and "n \<le> length new_samples"
  shows "length (valid_gt hs new_samples n) = n
     \<and> valid_gt hs new_samples n ! r = list_all (\<lambda>h. 0 < h (new_samples ! r)) hs"
proof -
  have "length (fold (\<lambda>h valid. map2 (\<lambda>v x. 0 < of_bool v * h x) valid new_samples) hs vs) = n
     \<and> fold (\<lambda>h valid. map2 (\<lambda>v x. 0 < of_bool v * h x) valid new_samples) hs vs ! r
        = (vs ! r \<and> list_all (\<lambda>h. 0 < h (new_samples ! r)) hs)"
    if "length vs = n" for vs
    using that assms
  proof (induction hs arbitrary: vs)
    case Nil
    then show ?case by simp
  next
    case (Cons h hs)
    let ?vs = "map2 (\<lambda>v x. 0 < of_bool v * h x) vs new_samples"
    have len: "length ?vs = n" using Cons.prems by simp
    have nth: "?vs ! r = (vs ! r \<and> 0 < h (new_samples ! r))"
      using Cons.prems by auto
    from Cons.IH[OF len Cons.prems(2,3)] nth show ?case by auto
  qed
  from this[of "replicate n True"] assms show ?thesis
    by (simp add: valid_gt_def)
qed

lemma valid_ge_single:
  assumes "r < n" and "n \<le> length samples"
  shows "valid_ge [h] samples n ! r = (0 \<le> h (samples ! r))"
  using assms by (simp add: valid_ge_def)

lemma valid_ge_pair:
  assumes "r < n" and "n \<le> length samples"
  shows "valid_ge [h1, h2] samples n ! r =
           (if 0 \<le> h1 (samples ! r) then 0 \<le> h2 (samples ! r) else True)"
  using assms by (simp add: valid_ge_def)

text \<open>
  With a single constraint the first pass is right, and every returned row is feasible.
\<close>

lemma quantum_sampling_length:
  "quantum_sampling q Q n z = Inr xs \<Longrightarrow> length xs = n"
  by (auto simp: quantum_sampling_def np_random_normal_def np_minimum_def np_maximum_def
      place_round_def split: if_splits sum.splits)

lemma mask_rows_length: "length (mask_rows xs valid) \<le> length xs"
proof -
  have "length (filter snd (zip xs valid)) \<le> length (zip xs valid)"
    by (rule length_filter_le)
  also have "\<dots> \<le> length xs" by simp
  finally show ?thesis by (simp add: mask_rows_def)
qed

lemma mask_rows_set:
  assumes "x \<in> set (mask_rows xs valid)"
  shows "\<exists>r. r < length xs \<and> r < length valid \<and> x = xs ! r \<and> valid ! r"
  using assms unfolding mask_rows_def by (auto simp: set_zip)

lemma rqs_while_feasible:
  assumes "rqs_while fuel q Q n rng c samples = Some (Inr (out, c'))"
    and "length samples \<le> n" and "\<forall>x\<in>set samples. P x"
    and "\<And>x. list_all (\<lambda>h. 0 < h x) (restrictions q) \<Longrightarrow> P x"
  shows "length out = n \<and> (\<forall>x\<in>set out. P x)"
  using assms(1-3)
proof (induction fuel arbitrary: c samples)
  case 0
  then show ?case by (auto split: if_splits)
next
  case (Suc fuel)
  show ?case
  proof (cases "length samples < n")
    case False
    with Suc.prems show ?thesis by auto
  next
    case True
    let ?m = "n - length samples"
    from Suc.prems(1) True obtain new_samples where
      new: "quantum_sampling q Q ?m (rng c) = Inr new_samples"
      and rest: "rqs_while fuel q Q n rng (c + 1)
          (samples @ mask_rows new_samples (valid_gt (restrictions q) new_samples ?m))
        = Some (Inr (out, c'))"
      by (auto split: sum.splits)
    from quantum_sampling_length[OF new] have len: "length new_samples = ?m" .
    let ?kept = "mask_rows new_samples (valid_gt (restrictions q) new_samples ?m)"
    have "length ?kept \<le> ?m" using mask_rows_length[of new_samples] len by simp
    then have l: "length (samples @ ?kept) \<le> n" using True by simp
    have "P x" if "x \<in> set ?kept" for x
    proof -
      from mask_rows_set[OF that] obtain r where
        r: "r < length new_samples" "x = new_samples ! r"
           "valid_gt (restrictions q) new_samples ?m ! r"
        by blast
      from r(1) len have "r < ?m" "?m \<le> length new_samples" by simp_all
      from valid_gt_nth[OF this, of "restrictions q"] r(2,3)
      show ?thesis by (auto intro: assms(4))
    qed
    with Suc.prems(3) have p: "\<forall>x\<in>set (samples @ ?kept). P x" by auto
    from Suc.IH[OF rest l p] show ?thesis .
  qed
qed

lemma restricted_quantum_sampling_single:
  assumes "restrictions q = [h]"
    and "restricted_quantum_sampling q Q n fuel rng c = Some (Inr (out, c'))"
  shows "length out = n \<and> (\<forall>x\<in>set out. 0 \<le> h x)"
proof -
  from assms(2) obtain samples where
    s: "quantum_sampling q Q n (rng c) = Inr samples"
    and w: "rqs_while fuel q Q n rng (c + 1)
        (mask_rows samples (valid_ge (restrictions q) samples n)) = Some (Inr (out, c'))"
    by (auto simp: restricted_quantum_sampling_def split: sum.splits)
  from quantum_sampling_length[OF s] have len: "length samples = n" .
  let ?kept = "mask_rows samples (valid_ge (restrictions q) samples n)"
  have l: "length ?kept \<le> n" using mask_rows_length[of samples] len by simp
  have p: "\<forall>x\<in>set ?kept. 0 \<le> h x"
  proof
    fix x assume "x \<in> set ?kept"
    from mask_rows_set[OF this] obtain r where
      r: "r < length samples" "x = samples ! r" "valid_ge (restrictions q) samples n ! r"
      by blast
    from r(1) len have "r < n" "n \<le> length samples" by simp_all
    from valid_ge_single[OF this, of h] r(2,3) assms(1) show "0 \<le> h x" by simp
  qed
  show ?thesis
  proof (rule rqs_while_feasible[OF w l p])
    fix x assume "list_all (\<lambda>h. 0 < h x) (restrictions q)"
    then show "0 \<le> h x" using assms(1) by simp
  qed
qed

text \<open>
  Claim C1: every row returned by \<^verbatim>\<open>restricted_quantum_sampling\<close> satisfies every
  constraint with a value \<open>\<ge> 0\<close>. The code breaks it for two constraints
  \<open>h1 x = x - 5\<close> and \<open>h2 x = x + 10\<close>: the drawn row \<open>[0]\<close> fails \<open>h1\<close> (value \<open>-5\<close>), the
  first pass marks it valid all the same, and it is returned.
\<close>

theorem restricted_sampling_keeps_infeasible_row:
  "restricted_quantum_sampling two_restrictions_qea \<lparr>q_mean = [0], q_sigma = [1]\<rparr> 1 1
      (\<lambda>c r k. 0) 0 = Some (Inr ([[0]], 1))
   \<and> (restrictions two_restrictions_qea ! 0) [0] < 0"
  by (simp add: restricted_quantum_sampling_def quantum_sampling_def two_restrictions_qea_def
      unit_qea_def np_random_normal_def np_maximum_def np_minimum_def mask_rows_def valid_ge_def)

section \<open>Properties of the initialization\<close>

text \<open>
  Claim C10, as stated, fails twice. The initial mean is not always in
  \<open>[lower, lower + upper)\<close>: for the valid domain \<open>[-10, -5]\<close> and the draw \<open>1/2\<close> it is
  \<open>-12.5\<close>, below \<open>lower\<close>. And not every valid domain with \<open>lower \<noteq> 0\<close> has this interval
  reach outside \<open>[lower, upper]\<close>: for \<open>[-10, 10]\<close> it is \<open>[-10, 0)\<close>.
\<close>

theorem initial_mean_counterexample:
  "lower negative_domain_qea ! 0 \<le> upper negative_domain_qea ! 0
   \<and> lower negative_domain_qea ! 0 \<noteq> 0
   \<and> q_mean (fst (quantum_individual_init negative_domain_qea (\<lambda>r k. 1 / 2))) ! 0 = - 25 / 2
   \<and> (- 25 / 2 :: real) < lower negative_domain_qea ! 0
   \<and> lower unit_qea ! 0 \<le> upper unit_qea ! 0 \<and> lower unit_qea ! 0 \<noteq> 0
   \<and> {lower unit_qea ! 0 ..< lower unit_qea ! 0 + upper unit_qea ! 0}
        \<subseteq> {lower unit_qea ! 0 .. upper unit_qea ! 0}"
  by (auto simp: negative_domain_qea_def unit_qea_def quantum_individual_init_def)

text \<open>
  Claim C10, amended: each component of the initial mean equals
  \<open>lower[k] + upper[k] * u\<close> with \<open>u\<close> in \<open>[0, 1)\<close>. When \<open>upper[k] > 0\<close> it lies in
  \<open>[lower[k], lower[k] + upper[k])\<close>. For a valid domain with \<open>lower[k] > 0\<close> every draw
  \<open>u > (upper[k] - lower[k]) / upper[k]\<close> puts it above \<open>upper[k]\<close>; when \<open>upper[k] < 0\<close>
  every draw \<open>u > 0\<close> puts it below \<open>lower[k]\<close>; when \<open>lower[k] \<le> 0 \<le> upper[k]\<close> it always
  lies within \<open>[lower[k], upper[k]]\<close>.
\<close>

theorem initial_mean_range:
  assumes "k < n_dims q" and "0 \<le> u 0 k" and "u 0 k < 1"
  shows "q_mean (fst (quantum_individual_init q u)) ! k = lower q ! k + upper q ! k * u 0 k
     \<and> (0 < upper q ! k \<longrightarrow>
          lower q ! k \<le> q_mean (fst (quantum_individual_init q u)) ! k
          \<and> q_mean (fst (quantum_individual_init q u)) ! k < lower q ! k + upper q ! k)
     \<and> (0 < lower q ! k \<and> lower q ! k \<le> upper q ! k
          \<and> (upper q ! k - lower q ! k) / upper q ! k < u 0 k \<longrightarrow>
          upper q ! k < q_mean (fst (quantum_individual_init q u)) ! k)
     \<and> (lower q ! k \<le> 0 \<and> 0 \<le> upper q ! k \<longrightarrow>
          lower q ! k \<le> q_mean (fst (quantum_individual_init q u)) ! k
          \<and> q_mean (fst (quantum_individual_init q u)) ! k \<le> upper q ! k)
     \<and> (upper q ! k < 0 \<and> 0 < u 0 k \<longrightarrow>
          q_mean (fst (quantum_individual_init q u)) ! k < lower q ! k)"
proof -
  have m: "q_mean (fst (quantum_individual_init q u)) ! k = lower q ! k + upper q ! k * u 0 k"
    using assms(1) by (simp add: quantum_individual_init_def)
  have a: "0 \<le> upper q ! k * u 0 k \<and> upper q ! k * u 0 k < upper q ! k" if "0 < upper q ! k"
    using that assms(2,3) by simp
  have b: "upper q ! k < lower q ! k + upper q ! k * u 0 k"
    if "0 < lower q ! k" "lower q ! k \<le> upper q ! k"
      "(upper q ! k - lower q ! k) / upper q ! k < u 0 k"
  proof -
    from that have pos: "0 < upper q ! k" by linarith
    from that(3) pos have "upper q ! k - lower q ! k < u 0 k * upper q ! k"
      by (simp add: pos_divide_less_eq)
    then show ?thesis by (simp add: mult.commute)
  qed
  have c: "0 \<le> upper q ! k * u 0 k \<and> upper q ! k * u 0 k \<le> upper q ! k" if "0 \<le> upper q ! k"
    using that assms(2,3) by (simp add: mult_left_le)
  have d: "upper q ! k * u 0 k < 0" if "upper q ! k < 0" "0 < u 0 k"
    using that by (simp add: mult_neg_pos)
  show ?thesis unfolding m using a b c d by auto
qed

theorem initial_mean_range_witness:
  "(0 :: nat) < n_dims positive_domain_qea \<and> (0 :: real) \<le> 3 / 4 \<and> (3 / 4 :: real) < 1
   \<and> 0 < lower positive_domain_qea ! 0
   \<and> lower positive_domain_qea ! 0 \<le> upper positive_domain_qea ! 0
   \<and> q_mean (fst (quantum_individual_init positive_domain_qea (\<lambda>r k. 3 / 4))) ! 0 = 25 / 2
   \<and> upper positive_domain_qea ! 0
        < q_mean (fst (quantum_individual_init positive_domain_qea (\<lambda>r k. 3 / 4))) ! 0"
proof -
  have k: "(0 :: nat) < n_dims positive_domain_qea"
    by (simp add: positive_domain_qea_def unit_qea_def)
  have pre: "0 < lower positive_domain_qea ! 0 \<and>
      lower positive_domain_qea ! 0 \<le> upper positive_domain_qea ! 0 \<and>
      (upper positive_domain_qea ! 0 - lower positive_domain_qea ! 0)
        / upper positive_domain_qea ! 0 < (\<lambda>r k. 3 / 4 :: real) (0 :: nat) (0 :: nat)"
    by (simp add: positive_domain_qea_def unit_qea_def)
  from initial_mean_range[of 0 positive_domain_qea "\<lambda>r k. 3 / 4", OF k] pre
  have "upper positive_domain_qea ! 0
        < q_mean (fst (quantum_individual_init positive_domain_qea (\<lambda>r k. 3 / 4))) ! 0"
    by simp
  moreover have
    "q_mean (fst (quantum_individual_init positive_domain_qea (\<lambda>r k. 3 / 4))) ! 0 = 25 / 2"
    by (simp add: positive_domain_qea_def unit_qea_def quantum_individual_init_def)
  ultimately show ?thesis using k pre by simp
qed

section \<open>Properties of the training loop\<close>

subsection \<open>One pass\<close>

lemma iteration_Inr:
  assumes "iteration N ss fuel rng i st = Some (Inr (st', brk))"
  shows "\<not> brk"
    and "ls_trace st' = ls_trace st @ [(i, if N \<le> i then 1 else elitist_level (ls_self st))]"
    and "elitist_level (ls_self st') = (if N \<le> i then 1 else elitist_level (ls_self st))"
    and "cost_function (ls_self st') = cost_function (ls_self st)"
    and "\<exists>samples c. draw_samples ss fuel rng st = Some (Inr (samples, c))
           \<and> ls_best_performer st' =
               Some (elitist_sample_evaluation
                      (if N \<le> i then (ls_self st)\<lparr>elitist_level := 1\<rparr> else ls_self st) samples)"
  using assms
  unfolding iteration_def save_snapshot_def Let_def
  by (auto split: option.splits sum.splits if_splits prod.splits)

text \<open>
  Once \<^verbatim>\<open>best_of_best\<close> is an array of its own, a pass changes it only to an elite
  target of strictly lower cost.
\<close>

lemma iteration_own_best_of_best:
  assumes "iteration N ss fuel rng i st = Some (Inr (st', brk))"
    and "best_of_best (ls_self st) = Some (OwnArray v)"
  shows "\<exists>v'. best_of_best (ls_self st') = Some (OwnArray v')
           \<and> cost_function (ls_self st') v' \<le> cost_function (ls_self st) v
           \<and> (v' \<noteq> v \<longrightarrow> ls_best_performer st' = Some v'
                 \<and> cost_function (ls_self st) v' < cost_function (ls_self st) v)"
  using assms
  unfolding iteration_def save_snapshot_def Let_def
  by (auto simp: deref_def split: option.splits sum.splits if_splits prod.splits)

text \<open>Which errors a pass can raise.\<close>

lemma quantum_sampling_Inl: "quantum_sampling q Q n z = Inl e \<Longrightarrow> e = ValueError"
  by (auto simp: quantum_sampling_def np_random_normal_def split: if_splits sum.splits)

lemma rqs_while_Inl:
  "rqs_while fuel q Q n rng c samples = Some (Inl e) \<Longrightarrow> e = ValueError"
proof (induction fuel arbitrary: c samples)
  case 0
  then show ?case by (simp split: if_splits)
next
  case (Suc fuel)
  then show ?case
    by (auto split: if_splits sum.splits dest: quantum_sampling_Inl)
qed

lemma draw_samples_Inl: "draw_samples ss fuel rng st = Some (Inl e) \<Longrightarrow> e = ValueError"
  by (auto simp: draw_samples_def restricted_quantum_sampling_def
      split: if_splits sum.splits dest: quantum_sampling_Inl rqs_while_Inl)

lemma quantum_update_Inl: "quantum_update q Q bp = Inl e \<Longrightarrow> e = AttributeError"
  by (auto simp: quantum_update_def Let_def split: option.splits)

lemma save_snapshot_Inl: "save_snapshot ss i bp st = Inl e \<Longrightarrow> e = IndexError"
  by (auto simp: save_snapshot_def split: if_splits)

lemma progress_Inl: "progress i N = Inl e \<Longrightarrow> e = ZeroDivisionError"
  by (auto simp: progress_def split: if_splits)

lemma iteration_Inl:
  assumes "iteration N ss fuel rng i st = Some (Inl e)"
  shows "e \<noteq> AssertionError"
  using assms unfolding iteration_def Let_def
  by (auto split: option.splits sum.splits prod.splits if_splits
      dest: draw_samples_Inl quantum_update_Inl save_snapshot_Inl progress_Inl)

subsection \<open>The loop\<close>

lemma training_loop_Inl:
  "training_loop N ss fuel rng i n st = Some (Inl e) \<Longrightarrow> e \<noteq> AssertionError"
proof (induction n arbitrary: i st)
  case 0
  then show ?case by simp
next
  case (Suc n)
  then show ?case
    by (auto split: option.splits sum.splits prod.splits if_splits dest: iteration_Inl)
qed

lemma training_loop_trace:
  assumes "training_loop N ss fuel rng i n st = Some (Inr st')" and "i + n \<le> N + 1"
  shows "ls_trace st' =
           ls_trace st @ map (\<lambda>k. (k, if k = N then 1 else elitist_level (ls_self st))) [i..<i + n]
       \<and> elitist_level (ls_self st') =
           (if 0 < n \<and> i + n = N + 1 then 1 else elitist_level (ls_self st))
       \<and> cost_function (ls_self st') = cost_function (ls_self st)"
  using assms
proof (induction n arbitrary: i st)
  case 0
  then show ?case by simp
next
  case (Suc n)
  from Suc.prems(1) obtain st1 brk where
    it: "iteration N ss fuel rng i st = Some (Inr (st1, brk))"
    by (auto split: option.splits sum.splits)
  note props = iteration_Inr[OF it]
  from Suc.prems(1) it props(1) have
    rest: "training_loop N ss fuel rng (Suc i) n st1 = Some (Inr st')"
    by simp
  from Suc.prems(2) have le: "Suc i + n \<le> N + 1" by simp
  note ih = Suc.IH[OF rest le]
  have upt: "[i..<i + Suc n] = i # [Suc i..<Suc i + n]"
    by (simp add: upt_conv_Cons)
  show ?case
  proof (cases "n = 0")
    case True
    with rest have "st' = st1" by simp
    with True props Suc.prems(2) show ?thesis by auto
  next
    case False
    with Suc.prems(2) have "i < N" by simp
    with props have e1: "elitist_level (ls_self st1) = elitist_level (ls_self st)"
      and t1: "ls_trace st1 = ls_trace st @ [(i, elitist_level (ls_self st))]"
      by simp_all
    from ih e1 t1 props(4) \<open>i < N\<close> False show ?thesis
      unfolding upt by auto
  qed
qed

lemma training_loop_last:
  assumes "training_loop N ss fuel rng i (Suc n) st = Some (Inr st')"
  shows "\<exists>m. training_loop N ss fuel rng i n st = Some (Inr m)
           \<and> iteration N ss fuel rng (i + n) m = Some (Inr (st', False))"
  using assms
proof (induction n arbitrary: i st)
  case 0
  from "0.prems" obtain st1 brk where
    it: "iteration N ss fuel rng i st = Some (Inr (st1, brk))"
    by (auto split: option.splits sum.splits)
  from iteration_Inr(1)[OF it] it "0.prems" show ?case by simp
next
  case (Suc n)
  from Suc.prems obtain st1 brk where
    it: "iteration N ss fuel rng i st = Some (Inr (st1, brk))"
    by (auto split: option.splits sum.splits)
  from iteration_Inr(1)[OF it] have nb: "\<not> brk" .
  with Suc.prems it have
    rest: "training_loop N ss fuel rng (Suc i) (Suc n) st1 = Some (Inr st')"
    by simp
  from Suc.IH[OF rest] obtain m where
    m: "training_loop N ss fuel rng (Suc i) n st1 = Some (Inr m)"
       "iteration N ss fuel rng (Suc i + n) m = Some (Inr (st', False))"
    by blast
  from it nb m(1) have "training_loop N ss fuel rng i (Suc n) st = Some (Inr m)" by simp
  with m(2) show ?case by simp
qed

subsection \<open>An unconstrained run on a valid configuration raises nothing\<close>

lemma updated_sigma_nonneg:
  fixes s sc :: real
  assumes "0 \<le> s" and "0 \<le> sc"
  shows "0 \<le> of_bool a * s / sc + of_bool b * s * sc"
  using assms by (cases a; cases b) simp_all

lemma list_all_map2_right:
  assumes "list_all P ys" and "\<And>x y. P y \<Longrightarrow> R (f x y)"
  shows "list_all R (map2 f xs ys)"
  using assms unfolding list_all_iff by (auto dest!: set_zip_rightD)

lemma quantum_update_sigma_nonneg:
  assumes "best_of_best q = Some bob" and "0 \<le> sigma_scaler q"
    and "list_all (\<lambda>s. 0 \<le> s) (q_sigma Q)"
  shows "\<exists>Q'. quantum_update q Q bp = Inr Q' \<and> list_all (\<lambda>s. 0 \<le> s) (q_sigma Q')"
proof -
  let ?dec = "map2 (\<lambda>d s. np_divide \<bar>d\<bar> s) (map2 (-) bp (q_mean Q)) (q_sigma Q)"
  let ?f = "\<lambda>dec s. of_bool (np_less dec 1) * s / sigma_scaler q
                               + of_bool (np_greater dec 1) * s * sigma_scaler q"
  let ?g = "\<lambda>dec us. if us < 0.001 \<and> np_less dec 1 then us * sigma_scaler q else us"
  have us: "list_all (\<lambda>s. 0 \<le> s) (map2 ?f ?dec (q_sigma Q))"
    using assms(3) by (rule list_all_map2_right) (rule updated_sigma_nonneg[OF _ assms(2)])
  have "list_all (\<lambda>s. 0 \<le> s) (map2 ?g ?dec (map2 ?f ?dec (q_sigma Q)))"
    using us by (rule list_all_map2_right) (simp add: assms(2))
  with us assms(1) show ?thesis
    unfolding quantum_update_def Let_def by (simp split: if_splits)
qed

lemma quantum_sampling_nonneg:
  assumes "list_all (\<lambda>s. 0 \<le> s) (q_sigma Q)"
  shows "\<exists>samples. quantum_sampling q Q n z = Inr samples"
proof -
  have "\<not> list_ex (\<lambda>s. s < 0) (q_sigma Q)"
    using assms by (auto simp: list_ex_iff list_all_iff)
  then show ?thesis
    by (simp add: quantum_sampling_def np_random_normal_def)
qed

lemma snapshot_index:
  fixes j s i N :: nat
  assumes "j * s < i + s" and "i mod s = 0" and "i \<le> N" and "0 < s"
  shows "j < 1 + N div s" and "(j + 1) * s < Suc i + s"
proof -
  from assms(2) have i: "i = (i div s) * s" by auto
  have "(i div s + 1) * s = i + s" using i by (simp add: algebra_simps)
  with assms(1) have "j * s < (i div s + 1) * s" by simp
  then have j: "j < i div s + 1" unfolding mult_less_cancel2 by simp
  moreover have "i div s \<le> N div s" using assms(3) by (rule div_le_mono)
  ultimately show "j < 1 + N div s" by simp
  from j have "(j + 1) * s \<le> (i div s + 1) * s"
    unfolding mult_le_cancel2 by simp
  also have "\<dots> = i + s" using i by (simp add: algebra_simps)
  finally show "(j + 1) * s < Suc i + s" by simp
qed

lemma iteration_completes:
  assumes inv: "loop_inv N i st" and "i \<le> N" and "0 < N"
  shows "\<exists>st'. iteration N ss fuel rng i st = Some (Inr (st', False)) \<and> loop_inv N (Suc i) st'"
proof -
  from inv obtain samples where
    draw: "draw_samples ss fuel rng st = Some (Inr (samples, ls_calls st + 1))"
    using quantum_sampling_nonneg[of "ls_Q st" "ls_self st" ss "rng (ls_calls st)"]
    by (auto simp: loop_inv_def draw_samples_def)
  define self1 where
    "self1 = (if int i > int N - 1 then (ls_self st)\<lparr>elitist_level := 1\<rparr> else ls_self st)"
  define bp where "bp = elitist_sample_evaluation self1 samples"
  from inv obtain bob where bob: "best_of_best self1 = Some bob"
    by (auto simp: loop_inv_def self1_def)
  define self2 where
    "self2 = (if cost_function self1 bp < cost_function self1 (deref (ls_Q st) bob)
              then self1\<lparr>best_of_best := Some (OwnArray bp)\<rparr> else self1)"
  have s2: "restrictions self2 = []" "best_of_best self2 \<noteq> None"
    "sigma_scaler self2 = sigma_scaler (ls_self st)"
    "saving_interval self2 = saving_interval (ls_self st)"
    using inv bob by (auto simp: loop_inv_def self1_def self2_def)
  from s2(2) obtain bob2 where bob2: "best_of_best self2 = Some bob2" by auto
  from inv have "0 \<le> sigma_scaler self2" "list_all (\<lambda>s. 0 \<le> s) (q_sigma (ls_Q st))"
    by (simp_all add: loop_inv_def s2)
  from quantum_update_sigma_nonneg[OF bob2 this] obtain Q' where
    upd: "quantum_update self2 (ls_Q st) bp = Inr Q'" "list_all (\<lambda>s. 0 \<le> s) (q_sigma Q')"
    by blast
  define st1 where
    "st1 = st\<lparr>ls_self := self2, ls_Q := Q', ls_best_performer := Some bp,
              ls_calls := ls_calls st + 1,
              ls_trace := ls_trace st @ [(i, elitist_level self1)]\<rparr>"
  have inv1: "loop_inv N i st1"
    using inv s2 upd(2) by (simp add: loop_inv_def st1_def)
  have "\<exists>st'. save_snapshot ss i bp st1 = Inr st' \<and> loop_inv N (Suc i) st'"
  proof (cases "i mod saving_interval (ls_self st1) = 0")
    case True
    from inv1 have "ls_j st1 * saving_interval (ls_self st1) < i + saving_interval (ls_self st1)"
      and "0 < saving_interval (ls_self st1)"
      by (simp_all add: loop_inv_def)
    from snapshot_index[OF this(1) True \<open>i \<le> N\<close> this(2)] inv1 True show ?thesis
      by (simp add: save_snapshot_def loop_inv_def)
  next
    case False
    with inv1 show ?thesis by (simp add: save_snapshot_def loop_inv_def)
  qed
  then obtain st' where
    snap: "save_snapshot ss i bp st1 = Inr st'" and inv': "loop_inv N (Suc i) st'"
    by blast
  have "iteration N ss fuel rng i st = Some (Inr (st', False))"
    unfolding iteration_def draw Let_def option.case sum.case prod.case
    unfolding self1_def[symmetric]
    unfolding bp_def[symmetric] bob option.case
    unfolding self2_def[symmetric] upd(1) sum.case
    unfolding st1_def[symmetric] snap
    using \<open>0 < N\<close> by (simp add: progress_def)
  with inv' show ?thesis by blast
qed

lemma training_loop_completes:
  assumes "loop_inv N i st" and "i + n \<le> N + 1" and "0 < N"
  shows "\<exists>st'. training_loop N ss fuel rng i n st = Some (Inr st')"
  using assms
proof (induction n arbitrary: i st)
  case 0
  then show ?case by simp
next
  case (Suc n)
  from Suc.prems have "i \<le> N" by simp
  from iteration_completes[OF Suc.prems(1) this Suc.prems(3)] obtain st1 where
    st1: "iteration N ss fuel rng i st = Some (Inr (st1, False))" "loop_inv N (Suc i) st1"
    by blast
  from Suc.prems(2) have "Suc i + n \<le> N + 1" by simp
  from Suc.IH[OF st1(2) this Suc.prems(3)] st1(1) show ?case by simp
qed

subsection \<open>The run\<close>

lemma start_state_simps:
  "ls_trace (start_state q u N) = []"
  "elitist_level (ls_self (start_state q u N)) = elitist_level q"
  "cost_function (ls_self (start_state q u N)) = cost_function q"
  by (simp_all add: start_state_def quantum_individual_init_def initial_state_def Let_def)

lemma start_state_inv:
  assumes "restrictions q = []" and "0 \<le> sigma_scaler q" and "0 < saving_interval q"
    and "\<forall>k<n_dims q. lower q ! k \<le> upper q ! k"
  shows "loop_inv N 0 (start_state q u N)"
  using assms
  by (simp add: loop_inv_def start_state_def quantum_individual_init_def initial_state_def
      Let_def list_all_iff)

lemma training_Inr:
  assumes "training q N ss fuel rng u t0 t1 = Some (Inr (res, st))"
  shows "training_loop N ss fuel rng 0 (N + 1) (start_state q u N) = Some (Inr st)"
    and "\<exists>bp. ls_best_performer st = Some bp
           \<and> res = \<lparr>res_time = t1 - t0, res_cost = cost_function (ls_self st) bp, res_min = bp\<rparr>"
    and "elitist_level q < ss"
  using assms unfolding training_def start_state_def
  by (auto simp del: training_loop.simps split: if_splits prod.splits option.splits sum.splits)

lemma training_completes:
  assumes "restrictions q = []" and "0 \<le> sigma_scaler q" and "0 < saving_interval q"
    and "\<forall>k<n_dims q. lower q ! k \<le> upper q ! k"
    and "0 < N" and "elitist_level q < ss"
  shows "\<exists>res st. training q N ss fuel rng u t0 t1 = Some (Inr (res, st))"
proof -
  have inv: "loop_inv N 0 (start_state q u N)"
    by (rule start_state_inv[OF assms(1-4)])
  have "\<exists>st. training_loop N ss fuel rng 0 (N + 1) (start_state q u N) = Some (Inr st)"
    by (rule training_loop_completes[OF inv _ assms(5)]) simp
  then obtain st where
    loop: "training_loop N ss fuel rng 0 (N + 1) (start_state q u N) = Some (Inr st)"
    by blast
  then have "training_loop N ss fuel rng 0 (Suc N) (start_state q u N) = Some (Inr st)"
    by simp
  from training_loop_last[OF this] obtain m where
    "iteration N ss fuel rng (0 + N) m = Some (Inr (st, False))" by blast
  from iteration_Inr(5)[OF this] obtain bp where bp: "ls_best_performer st = Some bp"
    by blast
  have si: "saving_interval (snd (quantum_individual_init q u)) \<noteq> 0"
    using assms(3) by (simp add: quantum_individual_init_def)
  show ?thesis
    using loop bp si assms(6) unfolding training_def start_state_def
    by (auto simp del: training_loop.simps split: prod.splits)
qed

subsection \<open>The claims about a run\<close>

text \<open>
  Claim C3: \<^verbatim>\<open>best_of_best\<close> changes only when the elite target's cost is strictly lower,
  so its cost never increases from one iteration to the next. The code breaks it. Until
  the first replacement \<^verbatim>\<open>self.best_of_best\<close> is the view \<^verbatim>\<open>Q[0:1, :]\<close>, and
  \<^verbatim>\<open>quantum_update\<close> writes the new mean into \<^verbatim>\<open>Q\<close> in place. In the run below the initial
  mean is 3 (cost 0); the first elite target is 6.5 (cost 12.25, not lower), so nothing is
  assigned to \<^verbatim>\<open>best_of_best\<close>; yet after the pass it shows the new mean 4.75, of cost
  49/16.
\<close>

theorem best_of_best_cost_increases:
  "observe best_of_best_cost (training_loop 1 3 0 demo_rng 0 0 (start_state demo_qea demo_u 1))
     = Some (Some 0)
   \<and> observe ls_best_performer
       (training_loop 1 3 0 demo_rng 0 (Suc 0) (start_state demo_qea demo_u 1))
     = Some (Some [13 / 2])
   \<and> cost_function demo_qea [13 / 2] = 49 / 4
   \<and> observe (\<lambda>st. best_of_best (ls_self st))
       (training_loop 1 3 0 demo_rng 0 (Suc 0) (start_state demo_qea demo_u 1))
     = Some (Some ViewOfQ)
   \<and> observe current_best_of_best
       (training_loop 1 3 0 demo_rng 0 (Suc 0) (start_state demo_qea demo_u 1))
     = Some (Some [19 / 4])
   \<and> observe best_of_best_cost
       (training_loop 1 3 0 demo_rng 0 (Suc 0) (start_state demo_qea demo_u 1))
     = Some (Some (49 / 16))"
  by code_simp

text \<open>
  Claim C6: a completed run returns the position of the last computed elite target (the
  one of the pass with index \<open>N_iterations\<close>, computed with \<^verbatim>\<open>elitist_level = 1\<close> from the
  batch drawn in that pass), its cost, and the elapsed time; \<^verbatim>\<open>best_of_best\<close> is not part
  of the result.
\<close>

theorem training_returns_last_elite:
  assumes "training q N ss fuel rng u t_begin t_end = Some (Inr (res, st))"
  shows "\<exists>st_prev samples c.
           training_loop N ss fuel rng 0 N (start_state q u N) = Some (Inr st_prev)
         \<and> draw_samples ss fuel rng st_prev = Some (Inr (samples, c))
         \<and> res_min res
             = elitist_sample_evaluation ((ls_self st_prev)\<lparr>elitist_level := 1\<rparr>) samples
         \<and> res_cost res = cost_function q (res_min res)
         \<and> res_time res = t_end - t_begin"
proof -
  note tr = training_Inr[OF assms]
  from tr(1) have "training_loop N ss fuel rng 0 (Suc N) (start_state q u N) = Some (Inr st)"
    by simp
  from training_loop_last[OF this] obtain m where
    m: "training_loop N ss fuel rng 0 N (start_state q u N) = Some (Inr m)"
       "iteration N ss fuel rng N m = Some (Inr (st, False))"
    by auto
  from iteration_Inr(5)[OF m(2)] obtain samples c where
    s: "draw_samples ss fuel rng m = Some (Inr (samples, c))"
       "ls_best_performer st =
          Some (elitist_sample_evaluation ((ls_self m)\<lparr>elitist_level := 1\<rparr>) samples)"
    by auto
  from training_loop_trace[OF tr(1)] have cf: "cost_function (ls_self st) = cost_function q"
    by (simp add: start_state_simps)
  from tr(2) s(2) cf m(1) s(1) show ?thesis by auto
qed

theorem training_returns_last_elite_witness:
  "returned (training demo_qea 1 3 0 late_rng zero_u 5 8)
     = Some \<lparr>res_time = 8 - 5, res_cost = cost_function demo_qea [13 / 2], res_min = [13 / 2]\<rparr>
   \<and> observe (draw_samples 3 0 late_rng)
       (training_loop 1 3 0 late_rng 0 1 (start_state demo_qea zero_u 1))
     = Some (Some (Inr ([[13 / 2], [10], [10]], 2)))
   \<and> map_option current_best_of_best (final_state (training demo_qea 1 3 0 late_rng zero_u 5 8))
     = Some (Some [3 / 2])"
proof -
  have ret: "returned (training demo_qea 1 3 0 late_rng zero_u 5 8)
     = Some \<lparr>res_time = 3, res_cost = 49 / 4, res_min = [13 / 2]\<rparr>"
    by code_simp
  then obtain res st where
    run: "training demo_qea 1 3 0 late_rng zero_u 5 8 = Some (Inr (res, st))"
    by (auto simp: returned_def split: option.splits sum.splits)
  with ret have min: "res_min res = [13 / 2]" by (simp add: returned_def)
  from training_returns_last_elite[OF run] min
  have "res_cost res = cost_function demo_qea [13 / 2]" "res_time res = 8 - 5"
    by auto
  with min run have "returned (training demo_qea 1 3 0 late_rng zero_u 5 8)
     = Some \<lparr>res_time = 8 - 5, res_cost = cost_function demo_qea [13 / 2], res_min = [13 / 2]\<rparr>"
    by (simp add: returned_def)
  moreover have "observe (draw_samples 3 0 late_rng)
       (training_loop 1 3 0 late_rng 0 1 (start_state demo_qea zero_u 1))
     = Some (Some (Inr ([[13 / 2], [10], [10]], 2)))"
    by code_simp
  moreover have
    "map_option current_best_of_best (final_state (training demo_qea 1 3 0 late_rng zero_u 5 8))
     = Some (Some [3 / 2])"
    by code_simp
  ultimately show ?thesis by blast
qed

text \<open>
  Claim C7: a run executes the loop body exactly \<open>N_iterations + 1\<close> times, with the
  indices \<open>0 .. N_iterations\<close>, and no cost value ends the loop early (the condition of
  the \<^verbatim>\<open>break\<close> is \<^verbatim>\<open>... and False\<close>). Every run that returns has executed exactly these
  passes; and an unconstrained run on a valid domain, with \<open>sigma_scaler > 0\<close>,
  \<open>mu_scaler \<noteq> 0\<close>, \<open>saving_interval > 0\<close>, \<open>N_iterations > 0\<close> and
  \<open>sample_size > elitist_level\<close>, does return, whatever the cost function and the random
  draws are.
\<close>

theorem training_runs_every_iteration:
  "(training q N ss fuel rng u t_begin t_end = Some (Inr (res, st)) \<longrightarrow>
      map fst (ls_trace st) = [0..<N + 1])
   \<and> (restrictions q = [] \<and> 0 < sigma_scaler q \<and> mu_scaler q \<noteq> 0
        \<and> 0 < saving_interval q \<and> (\<forall>k<n_dims q. lower q ! k \<le> upper q ! k)
        \<and> 0 < N \<and> elitist_level q < ss \<longrightarrow>
      (\<exists>res' st'. training q N ss fuel rng u t_begin t_end = Some (Inr (res', st'))
          \<and> map fst (ls_trace st') = [0..<N + 1]))"
proof -
  have a: "map fst (ls_trace st) = [0..<N + 1]"
    if "training q N ss fuel rng u t_begin t_end = Some (Inr (res, st))" for res st
  proof -
    from training_loop_trace[OF training_Inr(1)[OF that]]
    have "ls_trace st = map (\<lambda>k. (k, if k = N then 1 else elitist_level q)) [0..<0 + (N + 1)]"
      by (simp add: start_state_simps)
    then show ?thesis by (simp add: comp_def map_idI del: upt_Suc)
  qed
  have b: "\<exists>res' st'. training q N ss fuel rng u t_begin t_end = Some (Inr (res', st'))"
    if "restrictions q = []" "0 < sigma_scaler q" "0 < saving_interval q"
      "\<forall>k<n_dims q. lower q ! k \<le> upper q ! k" "0 < N" "elitist_level q < ss"
    using training_completes[OF that(1) less_imp_le[OF that(2)] that(3-6)] .
  show ?thesis using a b by blast
qed

theorem training_runs_every_iteration_witness:
  "restrictions demo_qea = [] \<and> 0 < sigma_scaler demo_qea \<and> mu_scaler demo_qea \<noteq> 0
   \<and> 0 < saving_interval demo_qea
   \<and> lower demo_qea ! 0 \<le> upper demo_qea ! 0 \<and> n_dims demo_qea = 1
   \<and> elitist_level demo_qea < 3
   \<and> map_option (\<lambda>st. map fst (ls_trace st))
        (final_state (training demo_qea 2 3 0 demo_rng demo_u 0 1)) = Some [0, 1, 2]"
proof -
  have pre: "restrictions demo_qea = [] \<and> 0 < sigma_scaler demo_qea
     \<and> mu_scaler demo_qea \<noteq> 0 \<and> 0 < saving_interval demo_qea
     \<and> (\<forall>k<n_dims demo_qea. lower demo_qea ! k \<le> upper demo_qea ! k) \<and> (0 :: nat) < 2
     \<and> elitist_level demo_qea < 3"
    by (simp add: demo_qea_def)
  with training_runs_every_iteration[of demo_qea 2 3 0 demo_rng demo_u 0 1]
  obtain res st where
    "training demo_qea 2 3 0 demo_rng demo_u 0 1 = Some (Inr (res, st))"
    "map fst (ls_trace st) = [0..<2 + 1]"
    by blast
  then have "map_option (\<lambda>st. map fst (ls_trace st))
        (final_state (training demo_qea 2 3 0 demo_rng demo_u 0 1)) = Some [0, 1, 2]"
    by (simp add: final_state_def eval_nat_numeral)
  then show ?thesis by (simp add: demo_qea_def)
qed

text \<open>
  Claim C8, as stated, fails in its last part: the loop assigns \<^verbatim>\<open>self.elitist_level = 1\<close>
  and nothing assigns the configured value back, so after a run configured with
  \<^verbatim>\<open>elitist_level = 2\<close> the field holds 1.
\<close>

theorem elitist_level_not_restored:
  "elitist_level demo_qea = 2
   \<and> map_option (\<lambda>st. elitist_level (ls_self st))
        (final_state (training demo_qea 1 3 0 late_rng zero_u 0 1)) = Some 1"
  by code_simp

text \<open>
  Claim C8, amended: in a completed run the elite target is computed with
  \<^verbatim>\<open>elitist_level = 1\<close> in the pass with index \<open>N_iterations\<close> and with the configured
  \<^verbatim>\<open>elitist_level\<close> in every earlier pass; the forcing is permanent: after the run the
  optimizer's \<^verbatim>\<open>elitist_level\<close> field holds 1.
\<close>

theorem elitist_level_forced_in_last_pass:
  assumes "training q N ss fuel rng u t_begin t_end = Some (Inr (res, st))"
  shows "ls_trace st = map (\<lambda>i. (i, if i = N then 1 else elitist_level q)) [0..<N + 1]
     \<and> elitist_level (ls_self st) = 1"
  using training_loop_trace[OF training_Inr(1)[OF assms]]
  by (simp add: start_state_simps)

theorem elitist_level_forced_in_last_pass_witness:
  "map_option ls_trace (final_state (training demo_qea 2 3 0 late_rng demo_u 0 1))
     = Some [(0, elitist_level demo_qea), (1, elitist_level demo_qea), (2, 1)]
   \<and> map_option (\<lambda>st. elitist_level (ls_self st))
        (final_state (training demo_qea 2 3 0 late_rng demo_u 0 1)) = Some 1"
proof -
  have "final_state (training demo_qea 2 3 0 late_rng demo_u 0 1) \<noteq> None"
    by code_simp
  then obtain res st where
    run: "training demo_qea 2 3 0 late_rng demo_u 0 1 = Some (Inr (res, st))"
    by (auto simp: final_state_def split: option.splits sum.splits)
  from elitist_level_forced_in_last_pass[OF run] run show ?thesis
    by (simp add: final_state_def eval_nat_numeral)
qed

text \<open>
  Claim C9: \<^verbatim>\<open>training\<close> with \<open>sample_size \<le> elitist_level\<close> raises the assertion error,
  whatever the cost function and the random draws are (the assertion is the first
  statement: nothing is sampled or evaluated before it); with
  \<open>sample_size > elitist_level\<close> the run does not raise it.
\<close>

theorem training_sample_size_assertion:
  "(ss \<le> elitist_level q \<longrightarrow>
      training q N ss fuel rng u t_begin t_end = Some (Inl AssertionError))
   \<and> (elitist_level q < ss \<longrightarrow>
      training q N ss fuel rng u t_begin t_end \<noteq> Some (Inl AssertionError))"
proof (intro conjI impI)
  assume "ss \<le> elitist_level q"
  then show "training q N ss fuel rng u t_begin t_end = Some (Inl AssertionError)"
    by (simp add: training_def)
next
  assume "elitist_level q < ss"
  then show "training q N ss fuel rng u t_begin t_end \<noteq> Some (Inl AssertionError)"
    unfolding training_def
    by (auto simp del: training_loop.simps split: prod.splits option.splits sum.splits
        dest: training_loop_Inl)
qed

theorem training_sample_size_assertion_witness:
  "(2 :: nat) \<le> elitist_level demo_qea
   \<and> training demo_qea 1 2 0 demo_rng demo_u 0 1 = Some (Inl AssertionError)
   \<and> elitist_level demo_qea < 3
   \<and> training demo_qea 1 3 0 demo_rng demo_u 0 1 \<noteq> Some (Inl AssertionError)"
proof -
  have a: "(2 :: nat) \<le> elitist_level demo_qea" and b: "elitist_level demo_qea < 3"
    by (simp_all add: demo_qea_def)
  from training_sample_size_assertion[of 2 demo_qea 1 0 demo_rng demo_u 0 1] a
  have "training demo_qea 1 2 0 demo_rng demo_u 0 1 = Some (Inl AssertionError)" by blast
  moreover
  from training_sample_size_assertion[of 3 demo_qea 1 0 demo_rng demo_u 0 1] b
  have "training demo_qea 1 3 0 demo_rng demo_u 0 1 \<noteq> Some (Inl AssertionError)" by blast
  ultimately show ?thesis using a b by blast
qed

end
